theory Spec2Isabelle
  imports Main "HOL-Library.Sublist"
begin

section \<open>Data model\<close>

text \<open>
  The interfaces \<^verbatim>\<open>Comment\<close>, \<^verbatim>\<open>Project\<close> and \<^verbatim>\<open>Task\<close> of \<^verbatim>\<open>src/main.ts\<close>, with the
  attributes the program reads or writes. Attributes of the service's JSON that the program
  only passes through (colour, order, sharing flags, assignee, section, ...) are left out.
  An optional attribute is an \<open>option\<close>: \<open>None\<close> stands for a JSON \<^verbatim>\<open>null\<close> and for an absent
  key alike, since the program only tests such attributes for truthiness. \<open>comments\<close> is absent
  on a task as fetched and present after enrichment.
\<close>

record comment =
  content :: string
  id :: string
  posted_at :: string
  task_id :: string

record project =
  id :: string
  name :: string

record due =
  date :: string
  is_recurring :: bool
  datetime :: string
  timezone :: string

record task =
  created_at :: string
  is_completed :: bool
  content :: string
  description :: "string option"
  due :: "due option"
  id :: string
  labels :: "string list"
  priority :: int
  project_id :: string
  comments :: "comment list option"

text \<open>
  A rejected promise or a thrown exception is a value: \<open>RequestFailed\<close> is a request of the
  host's \<^verbatim>\<open>requestUrl\<close> that fails (transport failure, error status, body that is not JSON),
  \<open>TypeError\<close> is the exception JavaScript throws when a property of \<^verbatim>\<open>undefined\<close> is read or
  \<^verbatim>\<open>undefined\<close> is called.
\<close>

datatype error = RequestFailed | TypeError

section \<open>Library functions of JavaScript used by the program\<close>

text \<open>\<^verbatim>\<open>Array.prototype.join\<close> on an array of strings.\<close>

fun join :: "string \<Rightarrow> string list \<Rightarrow> string" where
  "join sep [] = []"
| "join sep [x] = x"
| "join sep (x # y # ys) = x @ sep @ join sep (y # ys)"

text \<open>
  \<^verbatim>\<open>String.prototype.replace\<close> with a string pattern: the leftmost occurrence of the pattern
  is replaced, nothing else. The replacement is inserted as it is, which is what JavaScript
  does when the replacement has no \<^verbatim>\<open>$\<close> in it; the program's only replacement is \<^verbatim>\<open>"-"\<close>.
\<close>

fun replace :: "string \<Rightarrow> string \<Rightarrow> string \<Rightarrow> string" where
  "replace pat rep [] = (if pat = [] then rep else [])"
| "replace pat rep (c # cs) =
     (if prefix pat (c # cs) then rep @ drop (length pat) (c # cs)
      else c # replace pat rep cs)"

text \<open>
  Reading an array of strings at a number and interpolating the result in a template
  literal: an index outside the array reads \<^verbatim>\<open>undefined\<close>, which the template prints as the
  text \<^verbatim>\<open>undefined\<close>.
\<close>

definition index_template :: "string list \<Rightarrow> int \<Rightarrow> string" where
  "index_template xs i =
     (if 0 \<le> i \<and> i < int (length xs) then xs ! nat i else ''undefined'')"

subsection \<open>The object used as project lookup\<close>

text \<open>
  \<^verbatim>\<open>projects: Record<string, Project> = {}\<close> is a plain object. Its own properties are the
  projects stored by \<^verbatim>\<open>loadProjects\<close>; like every object literal it inherits from
  \<^verbatim>\<open>Object.prototype\<close>, and reading \<^verbatim>\<open>this.projects[k]\<close> for a key that is no own property
  walks that chain. Writing the key \<^verbatim>\<open>__proto__\<close> runs the inherited setter: it stores no
  own property but makes the assigned object the prototype of the lookup.
\<close>

record projects_object =
  own :: "string \<rightharpoonup> project"
  prototype :: "project option"

definition empty_object :: projects_object where
  "empty_object = \<lparr>own = Map.empty, prototype = None\<rparr>"

definition assign :: "projects_object \<Rightarrow> string \<Rightarrow> project \<Rightarrow> projects_object" where
  "assign obj k p =
     (if k = ''__proto__'' then obj\<lparr>prototype := Some p\<rparr>
      else obj\<lparr>own := (own obj)(k \<mapsto> p)\<rparr>)"

text \<open>
  The function-valued members of \<^verbatim>\<open>Object.prototype\<close> (ECMAScript, with Annex B). The
  \<^verbatim>\<open>name\<close> of each is its own key, but for \<^verbatim>\<open>constructor\<close>, which is the function
  \<^verbatim>\<open>Object\<close>.
\<close>

definition Object_prototype_functions :: "string list" where
  "Object_prototype_functions =
     [''constructor'', ''hasOwnProperty'', ''isPrototypeOf'', ''propertyIsEnumerable'',
      ''toLocaleString'', ''toString'', ''valueOf'', ''__defineGetter__'',
      ''__defineSetter__'', ''__lookupGetter__'', ''__lookupSetter__'']"

definition function_name :: "string \<Rightarrow> string" where
  "function_name k = (if k = ''constructor'' then ''Object'' else k)"

text \<open>
  The value of \<^verbatim>\<open>this.projects[k].name\<close>, or the \<open>TypeError\<close> of reading it.
  An own property is a project and has a name. The inherited accessor \<^verbatim>\<open>__proto__\<close> yields
  the prototype of the lookup: a project once one was assigned under that key, else
  \<^verbatim>\<open>Object.prototype\<close>, which has no \<^verbatim>\<open>name\<close>. An inherited function has a name. Every other
  key reads \<^verbatim>\<open>undefined\<close> (or, below a project used as prototype, one of its attributes, none
  of which has a \<^verbatim>\<open>name\<close>), and the read of \<^verbatim>\<open>name\<close> or the call of \<^verbatim>\<open>replace\<close> on it throws.
\<close>

definition get_name :: "projects_object \<Rightarrow> string \<Rightarrow> error + string" where
  "get_name obj k =
     (case own obj k of
        Some p \<Rightarrow> Inr (name p)
      | None \<Rightarrow>
          if k = ''__proto__'' then
            (case prototype obj of Some p \<Rightarrow> Inr (name p) | None \<Rightarrow> Inl TypeError)
          else if k \<in> set Object_prototype_functions then Inr (function_name k)
          else Inl TypeError)"

section \<open>The state of one import\<close>

text \<open>
  Task objects live in a store and are passed by reference, so that the assignment
  \<^verbatim>\<open>task.comments = comments\<close> of \<^verbatim>\<open>withComments\<close> is an update of the store. The state of an
  import is the \<^verbatim>\<open>projects\<close> field of the command object, the store, and the texts passed so
  far to \<^verbatim>\<open>editor.replaceRange\<close> (each at the cursor the host reported).
\<close>

type_synonym ref = nat

record state =
  projects :: projects_object
  store :: "ref \<Rightarrow> task"
  replaced :: "string list"

text \<open>
  What the service answers to the three GET requests of the program, as
  \<^verbatim>\<open>makeToDoistRequest\<close> returns it: a failure, or the parsed JSON body of the declared type.
  The task objects of the body are given by their references in the store; the comments are
  those of the request \<^verbatim>\<open>comments?task_id=\<close> followed by a task's id.
\<close>

record server =
  projects_response :: "error + project list"
  tasks_response :: "error + ref list"
  comments_response :: "string \<Rightarrow> error + comment list"

section \<open>The command \<^verbatim>\<open>ImportAllTasksCommand\<close>\<close>

text \<open>
  \<^verbatim>\<open>transformToMarkdown\<close> reads the task and \<^verbatim>\<open>this.projects\<close> and assigns nothing, so the state
  it returns is the state it was given. \<open>moment_format s\<close> stands for
  \<^verbatim>\<open>moment(s).format("YYYY-MM-DD")\<close> of the library \<^verbatim>\<open>moment\<close>, which renders a timestamp in the
  local time zone of the machine. The local constants are evaluated in the order of the
  source: \<^verbatim>\<open>task.comments.map\<close> throws on a task without comments before the project is looked
  up.
\<close>

definition transformToMarkdown ::
  "(string \<Rightarrow> string) \<Rightarrow> ref \<Rightarrow> state \<Rightarrow> (error + string) \<times> state" where
  "transformToMarkdown moment_format r s =
     (let t = store s r;
          tags = join '' '' (map (\<lambda>label. CHR ''#'' # label) (labels t));
          created = ''[created:: '' @ moment_format (created_at t) @ '']'';
          status = (if is_completed t then ''x'' else '' '');
          description' =
            (case description t of
               None \<Rightarrow> []
             | Some d \<Rightarrow> if d = [] then [] else ''\<newline>'' @ d @ ''\<newline>'')
      in case comments t of
           None \<Rightarrow> (Inl TypeError, s)
         | Some cs \<Rightarrow>
             (let comments' = join ''\<newline>\<newline>'' (map comment.content cs);
                  due' =
                    (case due t of
                       None \<Rightarrow> []
                     | Some d \<Rightarrow> ''[due:: '' @ moment_format (datetime d) @ '']'');
                  id' = ''[id:: '' @ task.id t @ '']'';
                  priority' =
                    ''[priority:: '' @
                    index_template [''none'', ''low'', ''medium'', ''high'', ''highest'']
                      (priority t) @ '']''
              in case get_name (projects s) (project_id t) of
                   Inl e \<Rightarrow> (Inl e, s)
                 | Inr n \<Rightarrow>
                     (let project' = ''#project-'' @ replace '' '' ''-'' n
                      in (Inr (''- ['' @ status @ ''] '' @ task.content t @ '' '' @ tags @ '' '' @
                               project' @ '' '' @ created @ '' '' @ priority' @ '' '' @ id' @
                               '' '' @ due' @ '' '' @ description' @ ''\<newline>'' @
                               comments' @ ''\<newline>''), s))))"

text \<open>
  \<^verbatim>\<open>loadProjects\<close>: the projects of the response are stored in \<^verbatim>\<open>this.projects\<close> under their
  ids, in the order of the response.
\<close>

definition loadProjects :: "server \<Rightarrow> state \<Rightarrow> (error + unit) \<times> state" where
  "loadProjects srv s =
     (case projects_response srv of
        Inl e \<Rightarrow> (Inl e, s)
      | Inr ps \<Rightarrow>
          (Inr (), s\<lparr>projects := foldl (\<lambda>obj p. assign obj (project.id p) p) (projects s) ps\<rparr>))"

definition allTasks :: "server \<Rightarrow> state \<Rightarrow> (error + ref list) \<times> state" where
  "allTasks srv s = (tasks_response srv, s)"

text \<open>
  \<^verbatim>\<open>withComments\<close>: the comments of the task are requested by the task's id; when they
  arrive they are assigned to the task object, and that object is the result.
\<close>

definition withComments :: "server \<Rightarrow> ref \<Rightarrow> state \<Rightarrow> (error + ref) \<times> state" where
  "withComments srv r s =
     (case comments_response srv (task.id (store s r)) of
        Inl e \<Rightarrow> (Inl e, s)
      | Inr cs \<Rightarrow> (Inr r, s\<lparr>store := (store s)(r := (store s r)\<lparr>comments := Some cs\<rparr>)\<rparr>))"

text \<open>
  \<^verbatim>\<open>tasks.map(withComments)\<close> starts one request per task and yields one promise per task;
  \<open>enrichTasksWithComments\<close> gives the outcome of each promise and the store once all of them
  are settled. The requests are settled here in the order of the list. Each of them writes
  to its own task only, and only to \<open>comments\<close>, so this order stands for every order in which
  the answers may arrive.
\<close>

fun enrichTasksWithComments ::
  "server \<Rightarrow> ref list \<Rightarrow> state \<Rightarrow> (error + ref) list \<times> state" where
  "enrichTasksWithComments srv [] s = ([], s)"
| "enrichTasksWithComments srv (r # rs) s =
     (case withComments srv r s of
        (x, s') \<Rightarrow> (case enrichTasksWithComments srv rs s' of (xs, s'') \<Rightarrow> (x # xs, s'')))"

text \<open>
  \<^verbatim>\<open>Promise.all\<close>: fulfilled with all values when every promise is fulfilled, rejected when
  one is rejected. (JavaScript rejects with the reason of the promise that is rejected first
  in time; the reasons here carry no data, and the first in the list is taken.)
\<close>

fun Promise_all :: "(error + 'a) list \<Rightarrow> error + 'a list" where
  "Promise_all [] = Inr []"
| "Promise_all (Inl e # xs) = Inl e"
| "Promise_all (Inr x # xs) = (case Promise_all xs of Inl e \<Rightarrow> Inl e | Inr ys \<Rightarrow> Inr (x # ys))"

text \<open>
  \<^verbatim>\<open>loadData\<close>: projects, then tasks, then the comments of every task; a step that fails
  ends the chain.
\<close>

definition loadData :: "server \<Rightarrow> state \<Rightarrow> (error + ref list) \<times> state" where
  "loadData srv s =
     (case loadProjects srv s of
        (Inl e, s1) \<Rightarrow> (Inl e, s1)
      | (Inr u, s1) \<Rightarrow>
          (case allTasks srv s1 of
             (Inl e, s2) \<Rightarrow> (Inl e, s2)
           | (Inr tasks, s2) \<Rightarrow>
               (case enrichTasksWithComments srv tasks s2 of
                  (outcomes, s3) \<Rightarrow> (Promise_all outcomes, s3))))"

text \<open>
  \<^verbatim>\<open>Array.prototype.map\<close> with a callback that may throw: the first exception ends the map.
\<close>

fun array_map ::
  "('a \<Rightarrow> 'st \<Rightarrow> (error + 'b) \<times> 'st) \<Rightarrow> 'a list \<Rightarrow> 'st \<Rightarrow> (error + 'b list) \<times> 'st" where
  "array_map f [] s = (Inr [], s)"
| "array_map f (x # xs) s =
     (case f x s of
        (Inl e, s') \<Rightarrow> (Inl e, s')
      | (Inr y, s') \<Rightarrow>
          (case array_map f xs s' of
             (Inl e, s'') \<Rightarrow> (Inl e, s'')
           | (Inr ys, s'') \<Rightarrow> (Inr (y # ys), s'')))"

text \<open>
  \<^verbatim>\<open>execute\<close>: the data is loaded, every task is rendered, and the blocks, joined by a rule,
  are passed to \<^verbatim>\<open>editor.replaceRange\<close> at the cursor, once.
\<close>

definition execute :: "(string \<Rightarrow> string) \<Rightarrow> server \<Rightarrow> state \<Rightarrow> (error + unit) \<times> state" where
  "execute moment_format srv s =
     (case loadData srv s of
        (Inl e, s1) \<Rightarrow> (Inl e, s1)
      | (Inr tasks, s1) \<Rightarrow>
          (case array_map (transformToMarkdown moment_format) tasks s1 of
             (Inl e, s2) \<Rightarrow> (Inl e, s2)
           | (Inr markdownTasks, s2) \<Rightarrow>
               (Inr (), s2\<lparr>replaced := replaced s2 @ [join ''\<newline>---\<newline>'' markdownTasks]\<rparr>)))"

section \<open>Example data\<close>

text \<open>
  A stand-in for \<^verbatim>\<open>moment(s).format("YYYY-MM-DD")\<close> on a machine whose local zone is UTC: the
  service sends timestamps in ISO 8601 with the offset \<^verbatim>\<open>Z\<close>, and the date printed for such a
  timestamp is then made of its first ten characters.
\<close>

definition format_utc :: "string \<Rightarrow> string" where
  "format_utc timestamp = take 10 timestamp"

text \<open>
  A stand-in for the same call on a machine whose local zone is \<open>h\<close> whole hours ahead of
  UTC, for timestamps of the form \<^verbatim>\<open>YYYY-MM-DDThh:mm:ssZ\<close>: the date printed is the date of
  the timestamp, or the day after it when the local time is past midnight.
\<close>

definition digit_value :: "char \<Rightarrow> nat" where
  "digit_value c = length (takeWhile (\<lambda>d. d \<noteq> c) ''0123456789'') mod 10"

definition number :: "string \<Rightarrow> nat" where
  "number ds = foldl (\<lambda>n c. 10 * n + digit_value c) 0 ds"

definition two_digits :: "nat \<Rightarrow> string" where
  "two_digits n = [''0123456789'' ! (n div 10 mod 10), ''0123456789'' ! (n mod 10)]"

definition days_in_month :: "nat \<Rightarrow> nat \<Rightarrow> nat" where
  "days_in_month y m =
     (if m = 2 then (if y mod 4 = 0 \<and> (y mod 100 \<noteq> 0 \<or> y mod 400 = 0) then 29 else 28)
      else if m = 4 \<or> m = 6 \<or> m = 9 \<or> m = 11 then 30 else 31)"

definition next_day :: "nat \<times> nat \<times> nat \<Rightarrow> nat \<times> nat \<times> nat" where
  "next_day ymd =
     (case ymd of (y, m, d) \<Rightarrow>
        if d < days_in_month y m then (y, m, d + 1)
        else if m < 12 then (y, m + 1, 1) else (y + 1, 1, 1))"

definition format_ahead :: "nat \<Rightarrow> string \<Rightarrow> string" where
  "format_ahead h timestamp =
     (let y = number (take 4 timestamp);
          m = number (take 2 (drop 5 timestamp));
          d = number (take 2 (drop 8 timestamp));
          hour = number (take 2 (drop 11 timestamp))
      in case (if 24 \<le> hour + h then next_day (y, m, d) else (y, m, d)) of
           (y', m', d') \<Rightarrow>
             two_digits (y' div 100) @ two_digits y' @ ''-'' @ two_digits m' @ ''-'' @
             two_digits d')"

text \<open>The project, the task and the lookup of the end-to-end scenario of the specification.\<close>

definition project_p1 :: project where
  "project_p1 = \<lparr>project.id = ''p1'', name = ''Work Stuff''\<rparr>"

definition task_t1 :: task where
  "task_t1 =
     \<lparr>created_at = ''2024-01-05T10:00:00Z'', is_completed = False, content = ''Write report'',
      description = None, due = None, id = ''t1'', labels = [''urgent''], priority = 3,
      project_id = ''p1'', comments = Some []\<rparr>"

definition lookup_p1 :: projects_object where
  "lookup_p1 = \<lparr>own = [''p1'' \<mapsto> project_p1], prototype = None\<rparr>"

definition state_t1 :: state where
  "state_t1 = \<lparr>projects = lookup_p1, store = (\<lambda>r. task_t1), replaced = []\<rparr>"

text \<open>
  A second project, whose name has two spaces, and a completed task of it with a due date,
  a description, two labels and two comments.
\<close>

definition project_p2 :: project where
  "project_p2 = \<lparr>project.id = ''p2'', name = ''Home and Garden''\<rparr>"

definition comment_c1 :: comment where
  "comment_c1 =
     \<lparr>comment.content = ''Ask Ann'', comment.id = ''c1'', posted_at = ''2024-02-11T07:00:00Z'',
      task_id = ''t2''\<rparr>"

definition comment_c2 :: comment where
  "comment_c2 =
     \<lparr>comment.content = ''Done on Monday'', comment.id = ''c2'',
      posted_at = ''2024-02-12T07:00:00Z'', task_id = ''t2''\<rparr>"

definition task_t2 :: task where
  "task_t2 =
     \<lparr>created_at = ''2024-02-10T08:30:00Z'', is_completed = True, content = ''Buy seeds'',
      description = Some ''Tomatoes and basil'',
      due = Some \<lparr>date = ''2024-03-01'', is_recurring = False,
                  datetime = ''2024-03-01T09:00:00Z'', timezone = ''UTC''\<rparr>,
      id = ''t2'', labels = [''garden'', ''shop''], priority = 1, project_id = ''p2'',
      comments = Some [comment_c1, comment_c2]\<rparr>"

definition lookup_p12 :: projects_object where
  "lookup_p12 = \<lparr>own = [''p1'' \<mapsto> project_p1, ''p2'' \<mapsto> project_p2], prototype = None\<rparr>"

definition state_t12 :: state where
  "state_t12 =
     \<lparr>projects = lookup_p12, store = (\<lambda>r. if r = 0 then task_t1 else task_t2),
      replaced = []\<rparr>"

text \<open>
  The state in which an import starts: \<^verbatim>\<open>importAllTasks\<close> creates a new command, whose lookup
  is the empty object; the two tasks are in the store as the service sends them, without
  comments; nothing was passed to the editor.
\<close>

definition state_new :: state where
  "state_new =
     \<lparr>projects = empty_object,
      store = (\<lambda>r. if r = 0 then task_t1\<lparr>comments := None\<rparr> else task_t2\<lparr>comments := None\<rparr>),
      replaced = []\<rparr>"

text \<open>
  Three services. The first answers every request. The second knows the first project only,
  so that the second task belongs to a project that is not in the lookup. The third fails on
  the comments of the second task.
\<close>

definition server_ok :: server where
  "server_ok =
     \<lparr>projects_response = Inr [project_p1, project_p2], tasks_response = Inr [0, 1],
      comments_response = (\<lambda>i. if i = ''t2'' then Inr [comment_c1, comment_c2] else Inr [])\<rparr>"

definition server_one_project :: server where
  "server_one_project =
     \<lparr>projects_response = Inr [project_p1], tasks_response = Inr [0, 1],
      comments_response = (\<lambda>i. if i = ''t2'' then Inr [comment_c1, comment_c2] else Inr [])\<rparr>"

definition server_comments_fail :: server where
  "server_comments_fail =
     \<lparr>projects_response = Inr [project_p1, project_p2], tasks_response = Inr [0, 1],
      comments_response = (\<lambda>i. if i = ''t2'' then Inl RequestFailed else Inr [])\<rparr>"

text \<open>
  A task whose \<open>project_id\<close> is the name of a member that every object inherits, in the state
  in which an import starts, and a service that sends this task and the first project.
\<close>

definition task_t3 :: task where
  "task_t3 = task_t1\<lparr>id := ''t3'', project_id := ''constructor'', comments := None\<rparr>"

definition state_t3 :: state where
  "state_t3 = \<lparr>projects = empty_object, store = (\<lambda>r. task_t3), replaced = []\<rparr>"

definition server_t3 :: server where
  "server_t3 =
     \<lparr>projects_response = Inr [project_p1], tasks_response = Inr [0],
      comments_response = (\<lambda>i. Inr [])\<rparr>"

section \<open>The rendered block\<close>

lemma transformToMarkdown_block:
  assumes "comments (store s r) = Some cs"
    and "get_name (projects s) (project_id (store s r)) = Inr n"
  shows "transformToMarkdown moment_format r s =
    (Inr (''- ['' @ (if is_completed (store s r) then ''x'' else '' '') @ ''] '' @
          task.content (store s r) @ '' '' @
          join '' '' (map (\<lambda>label. CHR ''#'' # label) (labels (store s r))) @ '' '' @
          (''#project-'' @ replace '' '' ''-'' n) @ '' '' @
          (''[created:: '' @ moment_format (created_at (store s r)) @ '']'') @ '' '' @
          (''[priority:: '' @
             index_template [''none'', ''low'', ''medium'', ''high'', ''highest'']
               (priority (store s r)) @ '']'') @ '' '' @
          (''[id:: '' @ task.id (store s r) @ '']'') @ '' '' @
          (case due (store s r) of
             None \<Rightarrow> []
           | Some d \<Rightarrow> ''[due:: '' @ moment_format (datetime d) @ '']'') @ '' '' @
          (case description (store s r) of
             None \<Rightarrow> []
           | Some d \<Rightarrow> if d = [] then [] else ''\<newline>'' @ d @ ''\<newline>'') @ ''\<newline>'' @
          join ''\<newline>\<newline>'' (map comment.content cs) @ ''\<newline>''), s)"
  using assms by (simp add: transformToMarkdown_def Let_def)










section \<open>The pipeline\<close>

lemma transformToMarkdown_state: "snd (transformToMarkdown moment_format r s) = s"
  by (simp add: transformToMarkdown_def Let_def split: option.splits sum.splits)

lemma withComments_preserves:
  assumes "withComments srv r s = (x, s')"
  shows "projects s' = projects s \<and> replaced s' = replaced s \<and>
    task.id (store s' q) = task.id (store s q) \<and>
    project_id (store s' q) = project_id (store s q)"
  using assms by (auto simp: withComments_def split: sum.splits)

lemma enrichTasksWithComments_preserves:
  assumes "enrichTasksWithComments srv tasks s = (xs, s')"
  shows "projects s' = projects s \<and> replaced s' = replaced s \<and>
    task.id (store s' q) = task.id (store s q) \<and>
    project_id (store s' q) = project_id (store s q)"
  using assms
proof (induction tasks arbitrary: s xs s')
  case Nil
  then show ?case by simp
next
  case (Cons r tasks)
  obtain x s1 where w: "withComments srv r s = (x, s1)"
    by (cases "withComments srv r s")
  obtain ys s2 where e: "enrichTasksWithComments srv tasks s1 = (ys, s2)"
    by (cases "enrichTasksWithComments srv tasks s1")
  from Cons.prems w e have "s' = s2"
    by simp
  with Cons.IH [OF e] withComments_preserves [OF w, of q] show ?case
    by simp
qed

lemma withComments_failure:
  assumes "comments_response srv (task.id (store s r)) = Inl e"
  shows "withComments srv r s = (Inl e, s)"
  using assms by (simp add: withComments_def)

lemma Promise_all_failure:
  assumes "Inl e \<in> set xs"
  shows "\<exists>e'. Promise_all xs = Inl e'"
  using assms
proof (induction xs rule: Promise_all.induct)
  case 1
  then show ?case by simp
next
  case (2 e xs)
  then show ?case by simp
next
  case (3 x xs)
  then show ?case by (auto split: sum.splits)
qed

lemma enrichTasksWithComments_failure:
  assumes "r \<in> set tasks"
    and "comments_response srv (task.id (store s r)) = Inl e"
  shows "Inl e \<in> set (fst (enrichTasksWithComments srv tasks s))"
  using assms
proof (induction tasks arbitrary: s)
  case Nil
  then show ?case by simp
next
  case (Cons q tasks)
  obtain x s1 where w: "withComments srv q s = (x, s1)"
    by (cases "withComments srv q s")
  obtain ys s2 where en: "enrichTasksWithComments srv tasks s1 = (ys, s2)"
    by (cases "enrichTasksWithComments srv tasks s1")
  show ?case
  proof (cases "q = r")
    case True
    with Cons.prems(2) w have "x = Inl e"
      by (simp add: withComments_failure)
    with w en show ?thesis by simp
  next
    case False
    with Cons.prems(1) have "r \<in> set tasks" by simp
    moreover from withComments_preserves [OF w, of r] Cons.prems(2)
    have "comments_response srv (task.id (store s1 r)) = Inl e" by simp
    ultimately have "Inl e \<in> set (fst (enrichTasksWithComments srv tasks s1))"
      by (rule Cons.IH)
    with w en show ?thesis by simp
  qed
qed

lemma loadProjects_preserves:
  assumes "loadProjects srv s = (x, s')"
  shows "store s' = store s \<and> replaced s' = replaced s"
  using assms by (auto simp: loadProjects_def split: sum.splits)

lemma loadData_preserves:
  assumes "loadData srv s = (x, s')"
  shows "replaced s' = replaced s \<and> project_id (store s' q) = project_id (store s q)"
proof (cases "projects_response srv")
  case (Inl e)
  with assms show ?thesis
    by (simp add: loadData_def loadProjects_def)
next
  case ps: (Inr ps)
  show ?thesis
  proof (cases "tasks_response srv")
    case (Inl e)
    with ps assms show ?thesis
      by (auto simp add: loadData_def loadProjects_def allTasks_def)
  next
    case (Inr tasks)
    let ?s1 = "s\<lparr>projects := foldl (\<lambda>obj p. assign obj (project.id p) p) (projects s) ps\<rparr>"
    obtain ys s3 where en: "enrichTasksWithComments srv tasks ?s1 = (ys, s3)"
      by (cases "enrichTasksWithComments srv tasks ?s1")
    with ps Inr assms have "s' = s3"
      by (simp add: loadData_def loadProjects_def allTasks_def)
    with enrichTasksWithComments_preserves [OF en, of q] show ?thesis
      by simp
  qed
qed

lemma loadData_projects:
  assumes "projects_response srv = Inr ps"
  shows "projects (snd (loadData srv s)) =
    foldl (\<lambda>obj p. assign obj (project.id p) p) (projects s) ps"
proof (cases "tasks_response srv")
  case (Inl e)
  with assms show ?thesis
    by (simp add: loadData_def loadProjects_def allTasks_def)
next
  case (Inr tasks)
  let ?s1 = "s\<lparr>projects := foldl (\<lambda>obj p. assign obj (project.id p) p) (projects s) ps\<rparr>"
  obtain ys s3 where en: "enrichTasksWithComments srv tasks ?s1 = (ys, s3)"
    by (cases "enrichTasksWithComments srv tasks ?s1")
  with assms Inr have "snd (loadData srv s) = s3"
    by (simp add: loadData_def loadProjects_def allTasks_def)
  with enrichTasksWithComments_preserves [OF en, of 0] show ?thesis
    by simp
qed

lemma Promise_all_Inr:
  assumes "Promise_all xs = Inr ys"
  shows "xs = map Inr ys"
  using assms
proof (induction xs arbitrary: ys rule: Promise_all.induct)
  case 1
  then show ?case by simp
next
  case (2 e xs)
  then show ?case by simp
next
  case (3 x xs)
  then show ?case by (auto split: sum.splits)
qed

lemma array_map_transformToMarkdown_state:
  "snd (array_map (transformToMarkdown moment_format) tasks s) = s"
proof (induction tasks)
  case Nil
  then show ?case by simp
next
  case (Cons r tasks)
  obtain x where x: "transformToMarkdown moment_format r s = (x, s)"
    using transformToMarkdown_state [of moment_format r s]
    by (cases "transformToMarkdown moment_format r s") simp
  obtain y where y: "array_map (transformToMarkdown moment_format) tasks s = (y, s)"
    using Cons by (cases "array_map (transformToMarkdown moment_format) tasks s") simp
  show ?case
    by (simp add: x y split: sum.splits)
qed

lemma array_map_transformToMarkdown_failure:
  assumes "r \<in> set tasks"
    and "fst (transformToMarkdown moment_format r s) = Inl e"
  shows "\<exists>e'. fst (array_map (transformToMarkdown moment_format) tasks s) = Inl e'"
  using assms(1)
proof (induction tasks)
  case Nil
  then show ?case by simp
next
  case (Cons q tasks)
  obtain x where x: "transformToMarkdown moment_format q s = (x, s)"
    using transformToMarkdown_state [of moment_format q s]
    by (cases "transformToMarkdown moment_format q s") simp
  obtain y where y: "array_map (transformToMarkdown moment_format) tasks s = (y, s)"
    using array_map_transformToMarkdown_state [of moment_format tasks s]
    by (cases "array_map (transformToMarkdown moment_format) tasks s") simp
  show ?case
  proof (cases "q = r")
    case True
    with assms(2) x show ?thesis by simp
  next
    case False
    with Cons have "\<exists>e'. y = Inl e'"
      by (simp add: y)
    then show ?thesis
      by (auto simp: x y split: sum.splits)
  qed
qed

lemma foldl_assign_own:
  assumes "k \<notin> project.id ` set ps"
  shows "own (foldl (\<lambda>obj p. assign obj (project.id p) p) obj ps) k = own obj k"
  using assms by (induction ps arbitrary: obj) (auto simp: assign_def)

lemma foldl_assign_prototype:
  assumes "''__proto__'' \<notin> project.id ` set ps"
  shows "prototype (foldl (\<lambda>obj p. assign obj (project.id p) p) obj ps) = prototype obj"
  using assms by (induction ps arbitrary: obj) (auto simp: assign_def)

lemma get_name_missing:
  assumes "k \<notin> project.id ` set ps" and "k \<notin> set Object_prototype_functions"
  shows "get_name (foldl (\<lambda>obj p. assign obj (project.id p) p) empty_object ps) k = Inl TypeError"
proof (cases "k = ''__proto__''")
  case True
  with assms(1) have "''__proto__'' \<notin> project.id ` set ps"
    by simp
  with True assms(1) show ?thesis
    by (simp add: get_name_def foldl_assign_own foldl_assign_prototype empty_object_def)
next
  case False
  with assms show ?thesis
    by (simp add: get_name_def foldl_assign_own empty_object_def)
qed

lemma withComments_outcome:
  assumes "withComments srv r s = (Inr q, s')"
  shows "q = r"
  using assms by (auto simp: withComments_def split: sum.splits)

lemma enrichTasksWithComments_all:
  assumes "Promise_all (fst (enrichTasksWithComments srv tasks s)) = Inr ts"
  shows "ts = tasks"
  using assms
proof (induction tasks arbitrary: s ts)
  case Nil
  then show ?case by simp
next
  case (Cons r tasks)
  obtain x s1 where w: "withComments srv r s = (x, s1)"
    by (cases "withComments srv r s")
  obtain ys s2 where en: "enrichTasksWithComments srv tasks s1 = (ys, s2)"
    by (cases "enrichTasksWithComments srv tasks s1")
  from Cons.prems w en have p: "Promise_all (x # ys) = Inr ts"
    by simp
  then obtain q where q: "x = Inr q"
    by (cases x) simp_all
  with w have "q = r"
    by (simp add: withComments_outcome)
  from p q obtain ts' where ts': "Promise_all ys = Inr ts'" "ts = q # ts'"
    by (cases "Promise_all ys") simp_all
  from ts'(1) en have "ts' = tasks"
    using Cons.IH [of s1 ts'] by simp
  with ts'(2) \<open>q = r\<close> show ?case
    by simp
qed

lemma loadData_tasks:
  assumes "loadData srv s = (Inr ts, s')"
  shows "tasks_response srv = Inr ts"
proof (cases "projects_response srv")
  case (Inl e)
  with assms show ?thesis
    by (simp add: loadData_def loadProjects_def)
next
  case ps: (Inr ps)
  show ?thesis
  proof (cases "tasks_response srv")
    case (Inl e)
    with ps assms show ?thesis
      by (simp add: loadData_def loadProjects_def allTasks_def)
  next
    case (Inr tasks)
    let ?s1 = "s\<lparr>projects := foldl (\<lambda>obj p. assign obj (project.id p) p) (projects s) ps\<rparr>"
    from ps Inr assms have "Promise_all (fst (enrichTasksWithComments srv tasks ?s1)) = Inr ts"
      by (simp add: loadData_def loadProjects_def allTasks_def split: prod.splits)
    then have "ts = tasks"
      by (rule enrichTasksWithComments_all)
    with Inr show ?thesis by simp
  qed
qed

lemma transformToMarkdown_unresolved:
  assumes "get_name (projects s) (project_id (store s r)) = Inl TypeError"
  shows "fst (transformToMarkdown moment_format r s) = Inl TypeError"
  using assms by (simp add: transformToMarkdown_def Let_def split: option.splits)

text \<open>
  When every request for comments is answered, \<^verbatim>\<open>loadData\<close> yields the tasks it fetched, each
  with the comments of its answer.
\<close>

lemma withComments_success:
  assumes "comments_response srv (task.id (store s r)) = Inr cs"
  shows "withComments srv r s =
    (Inr r, s\<lparr>store := (store s)(r := (store s r)\<lparr>comments := Some cs\<rparr>)\<rparr>)"
  using assms by (simp add: withComments_def)

lemma enrichTasksWithComments_success:
  assumes "\<forall>r \<in> set tasks. \<exists>cs. comments_response srv (task.id (store s r)) = Inr cs"
  shows "fst (enrichTasksWithComments srv tasks s) = map Inr tasks \<and>
    (\<forall>r \<in> set tasks. \<forall>cs. comments_response srv (task.id (store s r)) = Inr cs \<longrightarrow>
       comments (store (snd (enrichTasksWithComments srv tasks s)) r) = Some cs) \<and>
    (\<forall>r. r \<notin> set tasks \<longrightarrow> store (snd (enrichTasksWithComments srv tasks s)) r = store s r)"
  using assms
proof (induction tasks arbitrary: s)
  case Nil
  then show ?case by simp
next
  case (Cons q tasks)
  from Cons.prems obtain cq where cq: "comments_response srv (task.id (store s q)) = Inr cq"
    by auto
  let ?s1 = "s\<lparr>store := (store s)(q := (store s q)\<lparr>comments := Some cq\<rparr>)\<rparr>"
  have w: "withComments srv q s = (Inr q, ?s1)"
    using cq by (rule withComments_success)
  have ids: "task.id (store ?s1 r) = task.id (store s r)" for r
    by simp
  have "\<forall>r \<in> set tasks. \<exists>cs. comments_response srv (task.id (store ?s1 r)) = Inr cs"
    using Cons.prems by (simp only: ids) simp
  from Cons.IH [OF this]
  have ih: "fst (enrichTasksWithComments srv tasks ?s1) = map Inr tasks"
    "\<And>r cs. r \<in> set tasks \<Longrightarrow> comments_response srv (task.id (store ?s1 r)) = Inr cs \<Longrightarrow>
       comments (store (snd (enrichTasksWithComments srv tasks ?s1)) r) = Some cs"
    "\<And>r. r \<notin> set tasks \<Longrightarrow> store (snd (enrichTasksWithComments srv tasks ?s1)) r = store ?s1 r"
    by blast+
  obtain ys s2 where en: "enrichTasksWithComments srv tasks ?s1 = (ys, s2)"
    by (cases "enrichTasksWithComments srv tasks ?s1")
  have res: "enrichTasksWithComments srv (q # tasks) s = (Inr q # ys, s2)"
    using w en by simp
  show ?case
  proof (intro conjI ballI allI impI)
    show "fst (enrichTasksWithComments srv (q # tasks) s) = map Inr (q # tasks)"
      using res ih(1) en by simp
  next
    fix r cs
    assume r: "r \<in> set (q # tasks)"
      and c: "comments_response srv (task.id (store s r)) = Inr cs"
    show "comments (store (snd (enrichTasksWithComments srv (q # tasks) s)) r) = Some cs"
    proof (cases "r \<in> set tasks")
      case True
      from c have "comments_response srv (task.id (store ?s1 r)) = Inr cs"
        by (simp only: ids)
      from ih(2) [OF True this] res en show ?thesis
        by simp
    next
      case False
      with r have "r = q" by simp
      with c cq have "cs = cq" by simp
      from ih(3) [OF False] res en \<open>r = q\<close> \<open>cs = cq\<close> show ?thesis
        by simp
    qed
  next
    fix r
    assume "r \<notin> set (q # tasks)"
    then have "r \<notin> set tasks" "r \<noteq> q" by simp_all
    from ih(3) [OF this(1)] res en this(2)
    show "store (snd (enrichTasksWithComments srv (q # tasks) s)) r = store s r"
      by simp
  qed
qed

lemma Promise_all_map_Inr: "Promise_all (map Inr xs) = Inr xs"
  by (induction xs) simp_all

lemma loadData_success:
  assumes "projects_response srv = Inr ps" and "tasks_response srv = Inr tasks"
    and "\<forall>r \<in> set tasks. \<exists>cs. comments_response srv (task.id (store s r)) = Inr cs"
  shows "fst (loadData srv s) = Inr tasks \<and>
    (\<forall>r \<in> set tasks. \<forall>cs. comments_response srv (task.id (store s r)) = Inr cs \<longrightarrow>
       comments (store (snd (loadData srv s)) r) = Some cs)"
proof -
  let ?s1 = "s\<lparr>projects := foldl (\<lambda>obj p. assign obj (project.id p) p) (projects s) ps\<rparr>"
  have "\<forall>r \<in> set tasks. \<exists>cs. comments_response srv (task.id (store ?s1 r)) = Inr cs"
    using assms(3) by simp
  from enrichTasksWithComments_success [OF this]
  have en: "fst (enrichTasksWithComments srv tasks ?s1) = map Inr tasks"
    "\<forall>r \<in> set tasks. \<forall>cs. comments_response srv (task.id (store ?s1 r)) = Inr cs \<longrightarrow>
       comments (store (snd (enrichTasksWithComments srv tasks ?s1)) r) = Some cs"
    by blast+
  obtain ys s3 where e: "enrichTasksWithComments srv tasks ?s1 = (ys, s3)"
    by (cases "enrichTasksWithComments srv tasks ?s1")
  with assms(1,2) have l: "loadData srv s = (Promise_all ys, s3)"
    by (simp add: loadData_def loadProjects_def allTasks_def)
  from en(1) e have "ys = map Inr tasks" by simp
  with l have "fst (loadData srv s) = Inr tasks"
    by (simp add: Promise_all_map_Inr)
  moreover from en(2) e l
  have "\<forall>r \<in> set tasks. \<forall>cs. comments_response srv (task.id (store s r)) = Inr cs \<longrightarrow>
       comments (store (snd (loadData srv s)) r) = Some cs"
    by simp
  ultimately show ?thesis by (rule conjI)
qed

section \<open>Facts about the example data\<close>

lemma state_t12_task: "store state_t12 1 = task_t2"
  by (simp add: state_t12_def)

lemma state_t12_comments: "comments (store state_t12 1) = Some [comment_c1, comment_c2]"
  by (simp add: state_t12_def task_t2_def)

lemma state_t12_name:
  "get_name (projects state_t12) (project_id (store state_t12 1)) = Inr ''Home and Garden''"
  by (simp add: state_t12_def task_t2_def lookup_p12_def get_name_def project_p2_def)

lemma format_ahead_14_scenario: "format_ahead 14 ''2024-01-05T10:00:00Z'' = ''2024-01-06''"
  by (simp add: format_ahead_def number_def digit_value_def two_digits_def next_day_def
      days_in_month_def)

lemma format_ahead_13_scenario: "format_ahead 13 ''2024-01-05T10:00:00Z'' = ''2024-01-05''"
  by (simp add: format_ahead_def number_def digit_value_def two_digits_def next_day_def
      days_in_month_def)

lemma loadProjects_scenario:
  "foldl (\<lambda>obj p. assign obj (project.id p) p) empty_object [project_p1] = lookup_p1"
  by (simp add: assign_def empty_object_def lookup_p1_def project_p1_def)

text \<open>
  An import that succeeds: both tasks are enriched and rendered, and the two blocks, joined
  by the rule, are passed to the editor in one call.
\<close>

lemma execute_example:
  "fst (execute format_utc server_ok state_new) = Inr () \<and>
   projects (snd (execute format_utc server_ok state_new)) = lookup_p12 \<and>
   store (snd (execute format_utc server_ok state_new)) 0 = task_t1 \<and>
   store (snd (execute format_utc server_ok state_new)) 1 = task_t2 \<and>
   replaced (snd (execute format_utc server_ok state_new)) =
     [''- [ ] Write report #urgent #project-Work-Stuff [created:: 2024-01-05] [priority:: high] [id:: t1]  \<newline>\<newline>\<newline>---\<newline>- [x] Buy seeds #garden #shop #project-Home-and Garden [created:: 2024-02-10] [priority:: low] [id:: t2] [due:: 2024-03-01] \<newline>Tomatoes and basil\<newline>\<newline>Ask Ann\<newline>\<newline>Done on Monday\<newline>'']"
  by (simp add: execute_def loadData_def loadProjects_def allTasks_def withComments_def
      transformToMarkdown_def get_name_def assign_def empty_object_def
      index_template_def format_utc_def lookup_p12_def
      server_ok_def state_new_def task_t1_def task_t2_def project_p1_def project_p2_def
      comment_c1_def comment_c2_def)

section \<open>The claims about the rendered block\<close>

text \<open>
  Claim C1, as the specification states it: rendering the task of the end-to-end scenario,
  with no comments, under the lookup that holds the project \<^verbatim>\<open>p1\<close> only, gives the block that
  ends in \<^verbatim>\<open>[id:: t1]\<close>, a single space and two newlines. It does not: the block below is not
  the block rendered.
\<close>

theorem scenario_block_single_space_counterexample:
  "fst (transformToMarkdown format_utc 0 state_t1) \<noteq>
   Inr ''- [ ] Write report #urgent #project-Work-Stuff [created:: 2024-01-05] [priority:: high] [id:: t1] \<newline>\<newline>''"
  by (simp add: transformToMarkdown_def state_t1_def task_t1_def lookup_p1_def project_p1_def
      get_name_def index_template_def format_utc_def)

text \<open>
  Claim C1, amended: where the date library prints the creation timestamp as 2024-01-05,
  the block rendered for the scenario is the one of the specification with two spaces
  between \<^verbatim>\<open>[id:: t1]\<close> and the first newline: the template puts a space before the due date
  and a space before the description, and both are empty here. The state is not changed.
\<close>

theorem scenario_block_two_spaces:
  assumes "moment_format ''2024-01-05T10:00:00Z'' = ''2024-01-05''"
    and "store s r = task_t1" and "projects s = lookup_p1"
  shows "transformToMarkdown moment_format r s =
    (Inr ''- [ ] Write report #urgent #project-Work-Stuff [created:: 2024-01-05] [priority:: high] [id:: t1]  \<newline>\<newline>'', s)"
  using assms
  by (simp add: transformToMarkdown_def task_t1_def lookup_p1_def project_p1_def
      get_name_def index_template_def)

theorem scenario_block_two_spaces_witness:
  "transformToMarkdown format_utc 0 state_t1 =
    (Inr ''- [ ] Write report #urgent #project-Work-Stuff [created:: 2024-01-05] [priority:: high] [id:: t1]  \<newline>\<newline>'', state_t1)"
proof -
  have f: "format_utc ''2024-01-05T10:00:00Z'' = ''2024-01-05''"
    by (simp add: format_utc_def)
  have t: "store state_t1 0 = task_t1" and p: "projects state_t1 = lookup_p1"
    by (simp_all add: state_t1_def)
  from scenario_block_two_spaces [of format_utc state_t1 0, OF f t p] show ?thesis .
qed

text \<open>
  Claim C8: a task with comments whose project resolves is rendered, and its block starts
  with the checkbox \<^verbatim>\<open>- [x]\<close> when \<open>is_completed\<close> is true and with \<^verbatim>\<open>- [ ]\<close> when it is
  false.
\<close>

theorem checkbox_marker:
  assumes "comments (store s r) = Some cs"
    and "get_name (projects s) (project_id (store s r)) = Inr n"
  shows "\<exists>block. transformToMarkdown moment_format r s = (Inr block, s) \<and>
     (is_completed (store s r) \<longrightarrow> prefix ''- [x] '' block) \<and>
     (\<not> is_completed (store s r) \<longrightarrow> prefix ''- [ ] '' block)"
  unfolding transformToMarkdown_block [OF assms] by simp

theorem checkbox_marker_witness:
  "\<exists>block. transformToMarkdown format_utc 1 state_t12 = (Inr block, state_t12) \<and>
     prefix ''- [x] '' block"
proof -
  have "is_completed (store state_t12 1)"
    by (simp add: state_t12_def task_t2_def)
  with checkbox_marker [OF state_t12_comments state_t12_name, of format_utc] show ?thesis
    by auto
qed

text \<open>
  Claim C3: for a priority \<open>p\<close> from 1 to 4, the block of a rendered task has the annotation
  \<^verbatim>\<open>[priority:: L]\<close> between the annotations of the creation date and of the id, where \<open>L\<close>
  is the element at index \<open>p\<close>, counted from zero, of the array none, low, medium, high,
  highest: low for 1, medium for 2, high for 3 and highest for 4.
\<close>

theorem priority_annotation:
  assumes "comments (store s r) = Some cs"
    and "get_name (projects s) (project_id (store s r)) = Inr n"
    and "priority (store s r) \<in> {1, 2, 3, 4}"
  shows "\<exists>pre post. transformToMarkdown moment_format r s =
      (Inr (pre @ ''] [priority:: '' @
            [''none'', ''low'', ''medium'', ''high'', ''highest''] ! nat (priority (store s r)) @
            ''] [id:: '' @ post), s) \<and>
    [''none'', ''low'', ''medium'', ''high'', ''highest''] ! nat (priority (store s r)) =
      (if priority (store s r) = 1 then ''low''
       else if priority (store s r) = 2 then ''medium''
       else if priority (store s r) = 3 then ''high'' else ''highest'')"
proof -
  let ?t = "store s r"
  from assms(3) have i: "index_template [''none'', ''low'', ''medium'', ''high'', ''highest'']
      (priority ?t) = [''none'', ''low'', ''medium'', ''high'', ''highest''] ! nat (priority ?t)"
    by (auto simp: index_template_def)
  show ?thesis
    unfolding transformToMarkdown_block [OF assms(1,2)] i
    apply (rule exI [of _ "''- ['' @ (if is_completed ?t then ''x'' else '' '') @ ''] '' @
          task.content ?t @ '' '' @
          join '' '' (map (\<lambda>label. CHR ''#'' # label) (labels ?t)) @ '' '' @
          (''#project-'' @ replace '' '' ''-'' n) @ '' '' @
          (''[created:: '' @ moment_format (created_at ?t))"])
    apply (rule exI [of _ "task.id ?t @ ''] '' @
          (case due ?t of
             None \<Rightarrow> []
           | Some d \<Rightarrow> ''[due:: '' @ moment_format (datetime d) @ '']'') @ '' '' @
          (case description ?t of
             None \<Rightarrow> []
           | Some d \<Rightarrow> if d = [] then [] else ''\<newline>'' @ d @ ''\<newline>'') @ ''\<newline>'' @
          join ''\<newline>\<newline>'' (map comment.content cs) @ ''\<newline>''"])
    using assms(3) apply auto
    done
qed

theorem priority_annotation_witness:
  "\<exists>pre post. transformToMarkdown format_utc 1 state_t12 =
      (Inr (pre @ ''] [priority:: low] [id:: '' @ post), state_t12)"
proof -
  have p: "priority (store state_t12 1) \<in> {1, 2, 3, 4}"
    and q: "priority (store state_t12 1) = 1"
    by (simp_all add: state_t12_def task_t2_def)
  from priority_annotation [OF state_t12_comments state_t12_name p, of format_utc]
  show ?thesis
    unfolding q by simp
qed

text \<open>
  Claim C4: where the \<open>project_id\<close> of a task is the key of a project \<open>P\<close> stored in the
  lookup, the block has, between the labels and the creation date, the tag \<^verbatim>\<open>#project-\<close>
  followed by the name of \<open>P\<close> in which the first space, and no other, is a hyphen: for a
  name \<open>a\<close>, space, \<open>b\<close> with no space in \<open>a\<close> the tag ends in \<open>a\<close>, hyphen, \<open>b\<close>, with \<open>b\<close> as
  it is; a name without a space is not changed.
\<close>

theorem project_tag_first_space:
  assumes "comments (store s r) = Some cs"
    and "own (projects s) (project_id (store s r)) = Some P"
  shows "(\<forall>a b. name P = a @ '' '' @ b \<and> CHR '' '' \<notin> set a \<longrightarrow>
      (\<exists>pre post. transformToMarkdown moment_format r s =
         (Inr (pre @ '' #project-'' @ a @ ''-'' @ b @ '' [created:: '' @ post), s))) \<and>
    (CHR '' '' \<notin> set (name P) \<longrightarrow>
      (\<exists>pre post. transformToMarkdown moment_format r s =
         (Inr (pre @ '' #project-'' @ name P @ '' [created:: '' @ post), s)))"
proof -
  let ?t = "store s r"
  let ?pre = "''- ['' @ (if is_completed ?t then ''x'' else '' '') @ ''] '' @
    task.content ?t @ '' '' @ join '' '' (map (\<lambda>label. CHR ''#'' # label) (labels ?t))"
  let ?post = "moment_format (created_at ?t) @ ''] '' @
    (''[priority:: '' @
       index_template [''none'', ''low'', ''medium'', ''high'', ''highest''] (priority ?t) @
       '']'') @ '' '' @
    (''[id:: '' @ task.id ?t @ '']'') @ '' '' @
    (case due ?t of
       None \<Rightarrow> []
     | Some d \<Rightarrow> ''[due:: '' @ moment_format (datetime d) @ '']'') @ '' '' @
    (case description ?t of
       None \<Rightarrow> []
     | Some d \<Rightarrow> if d = [] then [] else ''\<newline>'' @ d @ ''\<newline>'') @ ''\<newline>'' @
    join ''\<newline>\<newline>'' (map comment.content cs) @ ''\<newline>''"
  have n: "get_name (projects s) (project_id ?t) = Inr (name P)"
    using assms(2) by (simp add: get_name_def)
  have eq: "transformToMarkdown moment_format r s =
      (Inr (?pre @ '' #project-'' @ replace '' '' ''-'' (name P) @ '' [created:: '' @ ?post), s)"
    unfolding transformToMarkdown_block [OF assms(1) n] by simp
  have first: "replace '' '' ''-'' (a @ '' '' @ b) = a @ ''-'' @ b" if "CHR '' '' \<notin> set a" for a b
    using that by (induction a) auto
  have none: "replace '' '' ''-'' a = a" if "CHR '' '' \<notin> set a" for a
    using that by (induction a) auto
  show ?thesis
  proof (intro conjI allI impI)
    fix a b
    assume "name P = a @ '' '' @ b \<and> CHR '' '' \<notin> set a"
    then have "replace '' '' ''-'' (name P) = a @ ''-'' @ b"
      using first [of a b] by simp
    with eq have "transformToMarkdown moment_format r s =
      (Inr (?pre @ '' #project-'' @ a @ ''-'' @ b @ '' [created:: '' @ ?post), s)"
      by (simp only: append_assoc)
    then show "\<exists>pre post. transformToMarkdown moment_format r s =
         (Inr (pre @ '' #project-'' @ a @ ''-'' @ b @ '' [created:: '' @ post), s)"
      by (intro exI)
  next
    assume "CHR '' '' \<notin> set (name P)"
    then have "replace '' '' ''-'' (name P) = name P"
      by (rule none)
    with eq have "transformToMarkdown moment_format r s =
      (Inr (?pre @ '' #project-'' @ name P @ '' [created:: '' @ ?post), s)"
      by simp
    then show "\<exists>pre post. transformToMarkdown moment_format r s =
         (Inr (pre @ '' #project-'' @ name P @ '' [created:: '' @ post), s)"
      by (intro exI)
  qed
qed

theorem project_tag_first_space_witness:
  "\<exists>pre post. transformToMarkdown format_utc 1 state_t12 =
     (Inr (pre @ '' #project-Home-and Garden [created:: '' @ post), state_t12)"
proof -
  have o: "own (projects state_t12) (project_id (store state_t12 1)) = Some project_p2"
    by (simp add: state_t12_def task_t2_def lookup_p12_def)
  have "name project_p2 = ''Home'' @ '' '' @ ''and Garden'' \<and> CHR '' '' \<notin> set ''Home''"
    by (simp add: project_p2_def)
  with project_tag_first_space [OF state_t12_comments o, of format_utc]
  have "\<exists>pre post. transformToMarkdown format_utc 1 state_t12 =
     (Inr (pre @ '' #project-'' @ ''Home'' @ ''-'' @ ''and Garden'' @ '' [created:: '' @ post),
      state_t12)"
    by blast
  then show ?thesis by simp
qed







section \<open>The claims about effects\<close>

text \<open>
  Claim C9, as the specification states it: the block is a function of the task and the
  lookup alone, so that two renderings of the same task under the same lookup give the same
  text. It is not: the dates are printed by the date library in the local time zone of the
  machine, and the task of the scenario, under the same lookup, is rendered with the
  creation date 2024-01-05 on a machine in UTC and with 2024-01-06 on a machine fourteen
  hours ahead of it.
\<close>

theorem rendering_depends_on_time_zone_counterexample:
  "fst (transformToMarkdown format_utc 0 state_t1) =
     Inr ''- [ ] Write report #urgent #project-Work-Stuff [created:: 2024-01-05] [priority:: high] [id:: t1]  \<newline>\<newline>'' \<and>
   fst (transformToMarkdown (format_ahead 14) 0 state_t1) =
     Inr ''- [ ] Write report #urgent #project-Work-Stuff [created:: 2024-01-06] [priority:: high] [id:: t1]  \<newline>\<newline>'' \<and>
   fst (transformToMarkdown format_utc 0 state_t1) \<noteq>
     fst (transformToMarkdown (format_ahead 14) 0 state_t1)"
  by (simp add: transformToMarkdown_def state_t1_def task_t1_def lookup_p1_def project_p1_def
      get_name_def index_template_def format_utc_def format_ahead_14_scenario)

text \<open>
  Claim C9, amended: rendering assigns nothing, so the task and the lookup are after it what
  they were before, and its result, be it a block or a failure, is determined by the task,
  the lookup and the dates that the date library prints for \<open>created_at\<close> and, where there
  is a due date, for its \<open>datetime\<close>: two renderings, in any two states and of any two
  references, of equal tasks under equal lookups give the same result when the library
  prints the same dates for these two timestamps. The dependence on the library is real:
  for a task that is rendered, two creation dates of the same length that differ give two
  blocks that differ.
\<close>

theorem rendering_depends_on_printed_dates:
  "snd (transformToMarkdown f r s) = s \<and>
   (projects s' = projects s \<and> store s' r' = store s r \<and>
    g (created_at (store s r)) = f (created_at (store s r)) \<and>
    (\<forall>d. due (store s r) = Some d \<longrightarrow> g (datetime d) = f (datetime d)) \<longrightarrow>
      fst (transformToMarkdown g r' s') = fst (transformToMarkdown f r s)) \<and>
   ((\<exists>block. fst (transformToMarkdown f r s) = Inr block) \<and>
    length (g (created_at (store s r))) = length (f (created_at (store s r))) \<and>
    g (created_at (store s r)) \<noteq> f (created_at (store s r)) \<longrightarrow>
      fst (transformToMarkdown g r s) \<noteq> fst (transformToMarkdown f r s))"
proof (intro conjI impI)
  show "snd (transformToMarkdown f r s) = s"
    by (rule transformToMarkdown_state)
next
  assume a: "projects s' = projects s \<and> store s' r' = store s r \<and>
    g (created_at (store s r)) = f (created_at (store s r)) \<and>
    (\<forall>d. due (store s r) = Some d \<longrightarrow> g (datetime d) = f (datetime d))"
  then show "fst (transformToMarkdown g r' s') = fst (transformToMarkdown f r s)"
    by (auto simp: transformToMarkdown_def Let_def split: option.splits sum.splits)
next
  assume a: "(\<exists>block. fst (transformToMarkdown f r s) = Inr block) \<and>
    length (g (created_at (store s r))) = length (f (created_at (store s r))) \<and>
    g (created_at (store s r)) \<noteq> f (created_at (store s r))"
  then obtain block where "fst (transformToMarkdown f r s) = Inr block"
    by blast
  then obtain cs n where cs: "comments (store s r) = Some cs"
    and n: "get_name (projects s) (project_id (store s r)) = Inr n"
    by (auto simp: transformToMarkdown_def Let_def split: option.splits sum.splits)
  from a have len: "length (g (created_at (store s r))) = length (f (created_at (store s r)))"
    and ne: "g (created_at (store s r)) \<noteq> f (created_at (store s r))"
    by simp_all
  show "fst (transformToMarkdown g r s) \<noteq> fst (transformToMarkdown f r s)"
    unfolding transformToMarkdown_block [OF cs n]
    using ne len by (simp add: append_eq_append_conv)
qed

theorem rendering_depends_on_printed_dates_witness:
  "snd (transformToMarkdown format_utc 0 state_t1) = state_t1 \<and>
   fst (transformToMarkdown (format_ahead 13) 5
     \<lparr>projects = lookup_p1, store = (\<lambda>r. task_t1), replaced = [''text'']\<rparr>) =
     fst (transformToMarkdown format_utc 0 state_t1) \<and>
   fst (transformToMarkdown (format_ahead 14) 0 state_t1) \<noteq>
     fst (transformToMarkdown format_utc 0 state_t1)"
proof (intro conjI)
  let ?s' = "\<lparr>projects = lookup_p1, store = (\<lambda>r. task_t1), replaced = [''text'']\<rparr>"
  note same = rendering_depends_on_printed_dates
    [of format_utc 0 state_t1 ?s' 5 "format_ahead 13"]
  note other = rendering_depends_on_printed_dates
    [of format_utc 0 state_t1 state_t1 0 "format_ahead 14"]
  show "snd (transformToMarkdown format_utc 0 state_t1) = state_t1"
    by (rule same [THEN conjunct1])
  have "projects ?s' = projects state_t1 \<and> store ?s' 5 = store state_t1 0 \<and>
    format_ahead 13 (created_at (store state_t1 0)) = format_utc (created_at (store state_t1 0)) \<and>
    (\<forall>d. due (store state_t1 0) = Some d \<longrightarrow> format_ahead 13 (datetime d) = format_utc (datetime d))"
    by (simp add: state_t1_def task_t1_def format_ahead_13_scenario format_utc_def)
  with same [THEN conjunct2, THEN conjunct1]
  show "fst (transformToMarkdown (format_ahead 13) 5 ?s') =
     fst (transformToMarkdown format_utc 0 state_t1)"
    by (rule mp)
  have "(\<exists>block. fst (transformToMarkdown format_utc 0 state_t1) = Inr block) \<and>
    length (format_ahead 14 (created_at (store state_t1 0))) =
      length (format_utc (created_at (store state_t1 0))) \<and>
    format_ahead 14 (created_at (store state_t1 0)) \<noteq> format_utc (created_at (store state_t1 0))"
    by (simp add: transformToMarkdown_def state_t1_def task_t1_def lookup_p1_def project_p1_def
        get_name_def index_template_def format_ahead_14_scenario format_utc_def)
  with other [THEN conjunct2, THEN conjunct2]
  show "fst (transformToMarkdown (format_ahead 14) 0 state_t1) \<noteq>
     fst (transformToMarkdown format_utc 0 state_t1)"
    by (rule mp)
qed

text \<open>
  Claim C10: when the request for its comments is answered, \<^verbatim>\<open>withComments\<close> yields the
  reference it was given, and the task object under it is the one that was there with the
  comments of the answer as its \<open>comments\<close>: \<open>id\<close>, \<open>content\<close>, \<open>description\<close>,
  \<open>is_completed\<close>, \<open>created_at\<close>, \<open>due\<close>, \<open>priority\<close>, \<open>labels\<close> and \<open>project_id\<close> are not
  changed. No other object of the store, nor the lookup, nor the editor is touched.
\<close>

theorem withComments_only_comments:
  assumes "comments_response srv (task.id (store s r)) = Inr cs"
  shows "\<exists>s'. withComments srv r s = (Inr r, s') \<and>
    store s' r = (store s r)\<lparr>comments := Some cs\<rparr> \<and>
    comments (store s' r) = Some cs \<and>
    task.id (store s' r) = task.id (store s r) \<and>
    task.content (store s' r) = task.content (store s r) \<and>
    description (store s' r) = description (store s r) \<and>
    is_completed (store s' r) = is_completed (store s r) \<and>
    created_at (store s' r) = created_at (store s r) \<and>
    due (store s' r) = due (store s r) \<and>
    priority (store s' r) = priority (store s r) \<and>
    labels (store s' r) = labels (store s r) \<and>
    project_id (store s' r) = project_id (store s r) \<and>
    (\<forall>q. q \<noteq> r \<longrightarrow> store s' q = store s q) \<and>
    projects s' = projects s \<and> replaced s' = replaced s"
  using assms by (simp add: withComments_def)

theorem withComments_only_comments_witness:
  "\<exists>s'. withComments server_ok 1 state_new = (Inr 1, s') \<and>
    store s' 1 = task_t2 \<and> store s' 0 = store state_new 0 \<and>
    comments (store state_new 1) = None"
proof -
  have c: "comments_response server_ok (task.id (store state_new 1)) =
      Inr [comment_c1, comment_c2]"
    by (simp add: server_ok_def state_new_def task_t2_def)
  have "(store state_new 1)\<lparr>comments := Some [comment_c1, comment_c2]\<rparr> = task_t2"
    and "comments (store state_new 1) = None"
    by (simp_all add: state_new_def task_t2_def)
  with withComments_only_comments [OF c] show ?thesis
    by auto
qed

section \<open>The claims about failures\<close>

text \<open>
  Claim C7: when the request for the comments of one of the tasks fails, \<^verbatim>\<open>loadData\<close> fails:
  it yields an error and no list of tasks, whatever the other requests answered, so that
  the comments that did arrive reach nobody. So does \<^verbatim>\<open>execute\<close>, and nothing is passed to
  the editor.
\<close>

theorem comment_fetch_failure_aborts:
  assumes "tasks_response srv = Inr tasks" and "r \<in> set tasks"
    and "comments_response srv (task.id (store s r)) = Inl e"
  shows "(\<exists>e'. fst (loadData srv s) = Inl e') \<and>
    (\<exists>e'. fst (execute moment_format srv s) = Inl e') \<and>
    replaced (snd (execute moment_format srv s)) = replaced s"
proof -
  have load: "\<exists>e'. fst (loadData srv s) = Inl e'"
  proof (cases "projects_response srv")
    case (Inl e0)
    then show ?thesis
      by (simp add: loadData_def loadProjects_def)
  next
    case (Inr ps)
    let ?s1 = "s\<lparr>projects := foldl (\<lambda>obj p. assign obj (project.id p) p) (projects s) ps\<rparr>"
    have "comments_response srv (task.id (store ?s1 r)) = Inl e"
      using assms(3) by simp
    with assms(2) have "Inl e \<in> set (fst (enrichTasksWithComments srv tasks ?s1))"
      by (rule enrichTasksWithComments_failure)
    then have "\<exists>e'. Promise_all (fst (enrichTasksWithComments srv tasks ?s1)) = Inl e'"
      by (rule Promise_all_failure)
    with Inr assms(1) show ?thesis
      by (auto simp: loadData_def loadProjects_def allTasks_def split: prod.splits)
  qed
  then obtain e' where e': "fst (loadData srv s) = Inl e'" ..
  obtain s1 where s1: "loadData srv s = (Inl e', s1)"
    using e' by (cases "loadData srv s") simp
  from loadData_preserves [OF s1, of r] have "replaced s1 = replaced s"
    by simp
  with s1 load show ?thesis
    by (simp add: execute_def)
qed


theorem comment_fetch_failure_aborts_witness:
  "(\<exists>e. fst (loadData server_comments_fail state_new) = Inl e) \<and>
   (\<exists>e. fst (execute format_utc server_comments_fail state_new) = Inl e) \<and>
   replaced (snd (execute format_utc server_comments_fail state_new)) = []"
proof -
  have t: "tasks_response server_comments_fail = Inr [0, 1]"
    by (simp add: server_comments_fail_def)
  have r: "(1::nat) \<in> set [0, 1]"
    by simp
  have c: "comments_response server_comments_fail (task.id (store state_new 1)) =
      Inl RequestFailed"
    by (simp add: server_comments_fail_def state_new_def task_t2_def)
  have "replaced state_new = []"
    by (simp add: state_new_def)
  with comment_fetch_failure_aborts [OF t r c, of format_utc] show ?thesis
    by simp
qed

text \<open>
  Claim C2, as the specification states it: a task whose \<open>project_id\<close> is the id of none of
  the projects fetched makes the rendering, and with it the import, fail. It need not: the
  lookup is a plain object, and for the \<open>project_id\<close> \<^verbatim>\<open>constructor\<close> the read
  \<^verbatim>\<open>this.projects[task.project_id]\<close> yields the inherited function \<^verbatim>\<open>Object\<close>, whose name is
  the text \<^verbatim>\<open>Object\<close>. The import succeeds and the block is passed to the editor.
\<close>

theorem inherited_key_renders_counterexample:
  "projects_response server_t3 = Inr [project_p1] \<and> tasks_response server_t3 = Inr [0] \<and>
   project_id (store state_t3 0) = ''constructor'' \<and>
   ''constructor'' \<notin> project.id ` set [project_p1] \<and>
   fst (execute format_utc server_t3 state_t3) = Inr () \<and>
   replaced (snd (execute format_utc server_t3 state_t3)) =
     [''- [ ] Write report #urgent #project-Object [created:: 2024-01-05] [priority:: high] [id:: t3]  \<newline>\<newline>'']"
  by (simp add: execute_def loadData_def loadProjects_def allTasks_def withComments_def
      transformToMarkdown_def get_name_def assign_def empty_object_def
      Object_prototype_functions_def function_name_def index_template_def format_utc_def
      server_t3_def state_t3_def task_t3_def task_t1_def project_p1_def)

text \<open>
  Claim C2, amended: in an import that starts with an empty lookup, a task among those
  fetched whose \<open>project_id\<close> is neither the id of a project fetched nor the name of a
  function that every object inherits makes the import fail: \<^verbatim>\<open>execute\<close> yields an error,
  nothing is passed to the editor, so that no block of any other task is inserted, and the
  rendering of that task fails with a \<open>TypeError\<close>.
\<close>

theorem missing_project_aborts_import:
  assumes "projects s = empty_object"
    and "projects_response srv = Inr ps" and "tasks_response srv = Inr tasks"
    and "r \<in> set tasks"
    and "project_id (store s r) \<notin> project.id ` set ps"
    and "project_id (store s r) \<notin> set Object_prototype_functions"
  shows "(\<exists>e. fst (execute moment_format srv s) = Inl e) \<and>
    replaced (snd (execute moment_format srv s)) = replaced s \<and>
    fst (transformToMarkdown moment_format r (snd (execute moment_format srv s))) = Inl TypeError"
proof -
  obtain x s1 where l: "loadData srv s = (x, s1)"
    by (cases "loadData srv s")
  from loadData_preserves [OF l, of r]
  have frame: "replaced s1 = replaced s" "project_id (store s1 r) = project_id (store s r)"
    by simp_all
  from loadData_projects [OF assms(2), of s] l assms(1)
  have "projects s1 = foldl (\<lambda>obj p. assign obj (project.id p) p) empty_object ps"
    by simp
  with get_name_missing [OF assms(5,6)] frame(2)
  have "get_name (projects s1) (project_id (store s1 r)) = Inl TypeError"
    by simp
  then have fail: "fst (transformToMarkdown moment_format r s1) = Inl TypeError"
    by (rule transformToMarkdown_unresolved)
  show ?thesis
  proof (cases x)
    case (Inl e)
    with l frame fail show ?thesis
      by (simp add: execute_def)
  next
    case (Inr ts)
    have "tasks_response srv = Inr ts"
      using l Inr by (simp add: loadData_tasks)
    with assms(3,4) have "r \<in> set ts"
      by simp
    from array_map_transformToMarkdown_failure [OF this fail]
    obtain e' where e': "fst (array_map (transformToMarkdown moment_format) ts s1) = Inl e'" ..
    with array_map_transformToMarkdown_state [of moment_format ts s1]
    have "array_map (transformToMarkdown moment_format) ts s1 = (Inl e', s1)"
      by (cases "array_map (transformToMarkdown moment_format) ts s1") simp
    with l Inr frame fail show ?thesis
      by (simp add: execute_def)
  qed
qed


theorem missing_project_aborts_import_witness:
  "(\<exists>e. fst (execute format_utc server_one_project state_new) = Inl e) \<and>
   replaced (snd (execute format_utc server_one_project state_new)) = [] \<and>
   fst (transformToMarkdown format_utc 1 (snd (execute format_utc server_one_project state_new)))
     = Inl TypeError"
proof -
  have e: "projects state_new = empty_object"
    by (simp add: state_new_def)
  have p: "projects_response server_one_project = Inr [project_p1]"
    and t: "tasks_response server_one_project = Inr [0, 1]"
    by (simp_all add: server_one_project_def)
  have r: "(1::nat) \<in> set [0, 1]"
    by simp
  have m: "project_id (store state_new 1) \<notin> project.id ` set [project_p1]"
    by (simp add: state_new_def task_t2_def project_p1_def)
  have i: "project_id (store state_new 1) \<notin> set Object_prototype_functions"
    by (simp add: state_new_def task_t2_def Object_prototype_functions_def)
  have "replaced state_new = []"
    by (simp add: state_new_def)
  with missing_project_aborts_import [OF e p t r m i, of format_utc] show ?thesis
    by simp
qed

end
